theory Spec2Isabelle
  imports Complex_Main
begin

section \<open>Python values, exceptions and the environment\<close>

text \<open>
  The router and the circuit breaker of \<^verbatim>\<open>app/services\<close> are embedded as pure
  functions with explicit state passing. Python objects that the code inspects are values of
  \<open>pyval\<close>; a \<^verbatim>\<open>dict\<close> with string keys is an association list read with
  \<open>map_of\<close> (the items of the dict, in insertion order). Timestamps are Python floats; they
  are modelled as reals, so rounding of float arithmetic is abstracted away.
\<close>

datatype pyval =
    PNone
  | PBool bool
  | PInt int
  | PStr string
  | PList "pyval list"
  | PDict "(string \<times> pyval) list"

type_synonym pydict = "(string \<times> pyval) list"

text \<open>Truth value testing of Python (\<^verbatim>\<open>bool(x)\<close>).\<close>

fun truthy :: "pyval \<Rightarrow> bool" where
  "truthy PNone = False"
| "truthy (PBool b) = b"
| "truthy (PInt i) = (i \<noteq> 0)"
| "truthy (PStr s) = (s \<noteq> [])"
| "truthy (PList xs) = (xs \<noteq> [])"
| "truthy (PDict d) = (d \<noteq> [])"

text \<open>\<^verbatim>\<open>key in d\<close> and \<^verbatim>\<open>d.get(key)\<close>, which yields \<^verbatim>\<open>None\<close> for an absent key.\<close>

definition has_key :: "pydict \<Rightarrow> string \<Rightarrow> bool" where
  "has_key d k = (map_of d k \<noteq> None)"

definition dict_get :: "pydict \<Rightarrow> string \<Rightarrow> pyval" where
  "dict_get d k = (case map_of d k of None \<Rightarrow> PNone | Some v \<Rightarrow> v)"

text \<open>
  Exceptions (subclasses of \<^verbatim>\<open>Exception\<close>) as values. \<open>CircuitBreakerError\<close> carries
  \<^verbatim>\<open>provider_name\<close> and \<^verbatim>\<open>retry_after\<close>; \<open>IndexError\<close> is what
  \<^verbatim>\<open>lane[0]\<close> raises on an empty lane; \<open>Exception msg\<close> stands for every other
  exception, with its message.
\<close>

datatype exn =
    CircuitBreakerError string real
  | IndexError
  | Exception string

text \<open>
  The environment of a run: \<open>clock w k\<close> is the value of the \<open>k\<close>-th evaluation of
  \<^verbatim>\<open>time.time()\<close> and \<open>reads w\<close> counts the evaluations made so far;
  \<open>responses w p k\<close> is what the vendor request of provider \<open>p\<close> does on its \<open>k\<close>-th
  invocation (it raises, or it returns a result dict), and \<open>invoked w p\<close> counts the
  invocations made so far.
\<close>

record world =
  clock :: "nat \<Rightarrow> real"
  reads :: nat
  responses :: "string \<Rightarrow> nat \<Rightarrow> exn + pydict"
  invoked :: "string \<Rightarrow> nat"

definition time_time :: "world \<Rightarrow> real \<times> world" where
  "time_time w = (clock w (reads w), w\<lparr>reads := Suc (reads w)\<rparr>)"

type_synonym 'a operation = "world \<Rightarrow> (exn + 'a) \<times> world"

section \<open>The circuit breaker (\<^verbatim>\<open>circuit_breaker.py\<close>)\<close>

datatype CircuitState = CLOSED | OPEN | HALF_OPEN

text \<open>
  \<^verbatim>\<open>window_size\<close> is the \<^verbatim>\<open>maxlen\<close> of a deque, which Python requires to be
  non-negative; it is a natural number here. The thresholds are Python ints.
\<close>

record CircuitBreakerConfig =
  failure_threshold :: int
  success_threshold :: int
  timeout :: real
  window_size :: nat

record CircuitBreaker =
  provider_name :: string
  config :: CircuitBreakerConfig
  state :: CircuitState
  failure_count :: int
  success_count :: int
  opened_at :: "real option"
  call_history :: "bool list"

text \<open>\<^verbatim>\<open>CircuitBreaker.__init__\<close>.\<close>

definition CircuitBreaker_init :: "string \<Rightarrow> CircuitBreakerConfig \<Rightarrow> CircuitBreaker" where
  "CircuitBreaker_init nm cfg =
     \<lparr>provider_name = nm, config = cfg, state = CLOSED, failure_count = 0,
      success_count = 0, opened_at = None, call_history = []\<rparr>"

text \<open>
  \<^verbatim>\<open>deque(maxlen=n).append(x)\<close>: the new item goes to the right end and, when the deque
  is longer than \<open>n\<close> afterwards, items are discarded from the left end.
\<close>

definition deque_append :: "nat \<Rightarrow> bool list \<Rightarrow> bool \<Rightarrow> bool list" where
  "deque_append n h x = drop (Suc (length h) - n) (h @ [x])"

definition should_attempt_reset :: "CircuitBreaker \<Rightarrow> world \<Rightarrow> bool \<times> world" where
  "should_attempt_reset cb w =
     (case opened_at cb of
        None \<Rightarrow> (False, w)
      | Some t0 \<Rightarrow> (let (now, w') = time_time w in (now - t0 \<ge> timeout (config cb), w')))"

definition transition_to_open :: "CircuitBreaker \<Rightarrow> world \<Rightarrow> CircuitBreaker \<times> world" where
  "transition_to_open cb w =
     (let (now, w') = time_time w in
      (cb\<lparr>state := OPEN, opened_at := Some now, success_count := 0, failure_count := 0\<rparr>, w'))"

definition transition_to_half_open :: "CircuitBreaker \<Rightarrow> CircuitBreaker" where
  "transition_to_half_open cb = cb\<lparr>state := HALF_OPEN, success_count := 0\<rparr>"

definition transition_to_closed :: "CircuitBreaker \<Rightarrow> CircuitBreaker" where
  "transition_to_closed cb =
     cb\<lparr>state := CLOSED, success_count := 0, failure_count := 0, opened_at := None\<rparr>"

definition on_success :: "CircuitBreaker \<Rightarrow> CircuitBreaker" where
  "on_success cb =
     (let cb1 = cb\<lparr>call_history := deque_append (window_size (config cb)) (call_history cb) True\<rparr> in
      if state cb1 = HALF_OPEN then
        (let cb2 = cb1\<lparr>success_count := success_count cb1 + 1\<rparr> in
         if success_count cb2 \<ge> success_threshold (config cb2) then transition_to_closed cb2
         else cb2)
      else if state cb1 = CLOSED then cb1\<lparr>failure_count := 0\<rparr>
      else cb1)"

definition on_failure :: "CircuitBreaker \<Rightarrow> world \<Rightarrow> CircuitBreaker \<times> world" where
  "on_failure cb w =
     (let cb1 = cb\<lparr>call_history := deque_append (window_size (config cb)) (call_history cb) False\<rparr> in
      if state cb1 = CLOSED then
        (let cb2 = cb1\<lparr>failure_count := failure_count cb1 + 1\<rparr> in
         if failure_count cb2 \<ge> failure_threshold (config cb2) then transition_to_open cb2 w
         else (cb2, w))
      else if state cb1 = HALF_OPEN then transition_to_open cb1 w
      else (cb1, w))"

text \<open>
  \<^verbatim>\<open>CircuitBreaker.call\<close>. The wrapped coroutine is an operation on the environment that
  returns a value (\<open>Inr\<close>) or raises (\<open>Inl\<close>). The result is what \<^verbatim>\<open>call\<close> returns or
  raises, the breaker afterwards and the environment afterwards. Each \<^verbatim>\<open>time.time()\<close>
  of the source is a reading of its own: one in \<^verbatim>\<open>_should_attempt_reset\<close>, a second one
  where \<^verbatim>\<open>retry_after\<close> is computed. \<^verbatim>\<open>self._opened_at or 0\<close> is \<open>0\<close> for
  \<^verbatim>\<open>None\<close> (and for the float \<open>0.0\<close>, which is the same number). Whatever the
  operation raises is caught by \<^verbatim>\<open>except Exception\<close>, counted by
  \<^verbatim>\<open>_on_failure\<close> and raised again. Calls on one breaker do not overlap.
\<close>

definition call :: "CircuitBreaker \<Rightarrow> 'a operation \<Rightarrow> world \<Rightarrow> (exn + 'a) \<times> CircuitBreaker \<times> world" where
  "call cb func w =
     (let (blocked, cb1, w1) =
        (if state cb = OPEN then
           (let (go, w') = should_attempt_reset cb w in
            if go then (None, transition_to_half_open cb, w')
            else
              (let (now, w'') = time_time w';
                   retry_after = max 0 (timeout (config cb)
                                   - (now - (case opened_at cb of None \<Rightarrow> 0 | Some t0 \<Rightarrow> t0)))
               in (Some (CircuitBreakerError (provider_name cb) retry_after), cb, w'')))
         else (None, cb, w))
      in case blocked of
           Some e \<Rightarrow> (Inl e, cb1, w1)
         | None \<Rightarrow>
             (case func w1 of
                (Inr v, w2) \<Rightarrow> (Inr v, on_success cb1, w2)
              | (Inl e, w2) \<Rightarrow> (let (cb2, w3) = on_failure cb1 w2 in (Inl e, cb2, w3))))"

text \<open>\<^verbatim>\<open>CircuitBreaker.reset\<close>.\<close>

definition reset :: "CircuitBreaker \<Rightarrow> CircuitBreaker" where
  "reset cb = cb\<lparr>state := CLOSED, failure_count := 0, success_count := 0,
                 opened_at := None, call_history := []\<rparr>"

text \<open>A run of calls on one breaker, one after the other; the outcomes are dropped.\<close>

fun calls :: "CircuitBreaker \<Rightarrow> 'a operation list \<Rightarrow> world \<Rightarrow> CircuitBreaker \<times> world" where
  "calls cb [] w = (cb, w)"
| "calls cb (f # fs) w = (case call cb f w of (r, cb', w') \<Rightarrow> calls cb' fs w')"

text \<open>An operation that raises wherever it is run, and one that returns wherever it is run.\<close>

definition raises :: "'a operation \<Rightarrow> bool" where
  "raises f = (\<forall>w. isl (fst (f w)))"

definition returns :: "'a operation \<Rightarrow> bool" where
  "returns f = (\<forall>w. \<not> isl (fst (f w)))"

text \<open>
  The invariant that ties the timestamp to the state: \<^verbatim>\<open>_opened_at\<close> is
  \<^verbatim>\<open>None\<close> exactly in state \<open>CLOSED\<close>.
\<close>

definition opened_at_inv :: "CircuitBreaker \<Rightarrow> bool" where
  "opened_at_inv cb = (opened_at cb = None \<longleftrightarrow> state cb = CLOSED)"

section \<open>The router (\<^verbatim>\<open>ai_router.py\<close>)\<close>

datatype RoutingLane = FAST | SMART

text \<open>
  A provider as the router sees it (the protocol \<^verbatim>\<open>AIProvider\<close>): its name, its declared
  lane (field \<^verbatim>\<open>lane\<close> of the provider, named \<open>provider_lane\<close> here because the routing
  decision has a field \<open>lane\<close> too) and its circuit breaker.
\<close>

record AIProvider =
  name :: string
  provider_lane :: RoutingLane
  circuit_breaker :: CircuitBreaker

record RoutingDecision =
  provider :: AIProvider
  lane :: RoutingLane
  reason :: string

record CortexRouter =
  fast_lane :: "AIProvider list"
  smart_lane :: "AIProvider list"

text \<open>
  The constructors of the five provider classes, as far as the router reads them: name, lane
  and the breaker with its thresholds (\<^verbatim>\<open>timeout\<close> and \<^verbatim>\<open>window_size\<close> keep the
  defaults \<open>60.0\<close> and \<open>100\<close>), and \<^verbatim>\<open>CortexRouter.__init__\<close>.
\<close>

definition new_provider :: "string \<Rightarrow> RoutingLane \<Rightarrow> int \<Rightarrow> int \<Rightarrow> AIProvider" where
  "new_provider nm la ft st =
     \<lparr>name = nm, provider_lane = la,
      circuit_breaker = CircuitBreaker_init nm
        \<lparr>failure_threshold = ft, success_threshold = st, timeout = 60, window_size = 100\<rparr>\<rparr>"

definition GeminiProvider :: AIProvider where
  "GeminiProvider = new_provider ''gemini'' FAST 5 2"

definition ClaudeProvider :: AIProvider where
  "ClaudeProvider = new_provider ''claude'' SMART 3 2"

definition OpenAIProvider :: AIProvider where
  "OpenAIProvider = new_provider ''openai'' FAST 5 2"

definition OllamaProvider :: AIProvider where
  "OllamaProvider = new_provider ''ollama'' FAST 3 2"

definition GroqProvider :: AIProvider where
  "GroqProvider = new_provider ''groq'' FAST 5 2"

definition CortexRouter_init :: CortexRouter where
  "CortexRouter_init =
     \<lparr>fast_lane = [OllamaProvider, GroqProvider, GeminiProvider],
      smart_lane = [ClaudeProvider, OpenAIProvider]\<rparr>"

text \<open>
  The vendor request inside \<^verbatim>\<open>analyze_code\<close> (the inner coroutine \<^verbatim>\<open>_call\<close>): the
  environment says what it does this time, and the invocation is counted.
\<close>

definition vendor_call :: "string \<Rightarrow> pydict operation" where
  "vendor_call nm w =
     (responses w nm (invoked w nm), w\<lparr>invoked := (invoked w)(nm := Suc (invoked w nm))\<rparr>)"

text \<open>
  \<^verbatim>\<open>analyze_code\<close> of every provider class ends in
  \<^verbatim>\<open>return await self.circuit_breaker.call(_call)\<close>. The provider is returned with its
  breaker as the call left it.
\<close>

definition analyze_code ::
  "AIProvider \<Rightarrow> (string \<times> string) list \<Rightarrow> pydict \<Rightarrow> string option \<Rightarrow> world
     \<Rightarrow> (exn + pydict) \<times> AIProvider \<times> world" where
  "analyze_code p codebase input_data system_doc w =
     (case call (circuit_breaker p) (vendor_call (name p)) w of
        (r, cb, w') \<Rightarrow> (r, p\<lparr>circuit_breaker := cb\<rparr>, w'))"

text \<open>
  \<^verbatim>\<open>CortexRouter._validate_result\<close>. The Python expression
  \<^verbatim>\<open>all(...) and result.get("success")\<close> yields \<^verbatim>\<open>False\<close> when a field is missing and
  the object stored under \<^verbatim>\<open>"success"\<close> otherwise; callers test it for truth.
\<close>

definition validate_result :: "pydict \<Rightarrow> pyval" where
  "validate_result result =
     (if list_all (\<lambda>field. has_key result field) [''success'', ''result'']
      then dict_get result ''success''
      else PBool False)"

text \<open>
  \<^verbatim>\<open>CortexRouter.route_analysis\<close>. The codebase is the list of the dict's items (path and
  content). \<^verbatim>\<open>lane[0]\<close> raises \<open>IndexError\<close> on an empty lane. The loop over the fast
  lane that looks for the provider named \<^verbatim>\<open>"ollama"\<close> returns at the first match.
\<close>

definition first_of :: "AIProvider list \<Rightarrow> RoutingLane \<Rightarrow> string \<Rightarrow> exn + RoutingDecision" where
  "first_of ps la rsn =
     (case ps of
        [] \<Rightarrow> Inl IndexError
      | p # _ \<Rightarrow> Inr \<lparr>provider = p, lane = la, reason = rsn\<rparr>)"

definition route_analysis ::
  "CortexRouter \<Rightarrow> (string \<times> string) list \<Rightarrow> pydict \<Rightarrow> string option \<Rightarrow> string option
     \<Rightarrow> exn + RoutingDecision" where
  "route_analysis rt codebase input_data system_doc user_intent =
     (let total_tokens = sum_list (map (\<lambda>(path, content). int (length content)) codebase) in
      if total_tokens > 100000 then
        first_of (smart_lane rt) SMART ''Large context size requires SMART lane''
      else if truthy (dict_get input_data ''has_vision'') then
        first_of (smart_lane rt) SMART ''Vision capabilities required''
      else if user_intent = Some ''--strong'' then
        first_of (smart_lane rt) SMART ''User requested strong analysis''
      else
        (case (if user_intent = Some ''--local''
               then find (\<lambda>p. name p = ''ollama'') (fast_lane rt) else None) of
           Some p \<Rightarrow> Inr \<lparr>provider = p, lane = FAST, reason = ''User requested local provider''\<rparr>
         | None \<Rightarrow>
             if user_intent = Some ''--cheap'' then
               first_of (fast_lane rt) FAST ''User requested cheap provider''
             else first_of (fast_lane rt) FAST ''Default FAST lane''))"

text \<open>
  The two loops of \<^verbatim>\<open>CortexRouter.analyze_with_fallback\<close> (the calls of the logger
  are left out: they do not change what is returned or raised). Each returns \<open>None\<close> when the
  loop ran to its end, \<open>Some (Inr r)\<close> when the function returned \<open>r\<close> from inside the loop and
  \<open>Some (Inl e)\<close> when \<open>e\<close> was raised out of it, with the providers and the environment
  as the loop left them.

  The primary loop has no \<^verbatim>\<open>try\<close>: it awaits \<^verbatim>\<open>analyze_code\<close>, validates what came
  back and, when that is valid, awaits \<^verbatim>\<open>analyze_code\<close> of the same provider a second time
  and returns the outcome of that second call.
\<close>

fun primary_loop ::
  "AIProvider list \<Rightarrow> (string \<times> string) list \<Rightarrow> pydict \<Rightarrow> string option \<Rightarrow> world
     \<Rightarrow> (exn + pydict) option \<times> AIProvider list \<times> world" where
  "primary_loop [] codebase input_data system_doc w = (None, [], w)"
| "primary_loop (p # ps) codebase input_data system_doc w =
     (case analyze_code p codebase input_data system_doc w of
        (Inl e, p1, w1) \<Rightarrow> (Some (Inl e), p1 # ps, w1)
      | (Inr r, p1, w1) \<Rightarrow>
          if \<not> truthy (validate_result r) then
            (case primary_loop ps codebase input_data system_doc w1 of
               (out, ps', w') \<Rightarrow> (out, p1 # ps', w'))
          else
            (case analyze_code p1 codebase input_data system_doc w1 of
               (r2, p2, w2) \<Rightarrow> (Some r2, p2 # ps, w2)))"

text \<open>The fallback loop wraps the call and the validation in \<^verbatim>\<open>try ... except Exception\<close>.\<close>

fun fallback_loop ::
  "AIProvider list \<Rightarrow> (string \<times> string) list \<Rightarrow> pydict \<Rightarrow> string option \<Rightarrow> world
     \<Rightarrow> (exn + pydict) option \<times> AIProvider list \<times> world" where
  "fallback_loop [] codebase input_data system_doc w = (None, [], w)"
| "fallback_loop (p # ps) codebase input_data system_doc w =
     (case analyze_code p codebase input_data system_doc w of
        (Inl e, p1, w1) \<Rightarrow>
          (case fallback_loop ps codebase input_data system_doc w1 of
             (out, ps', w') \<Rightarrow> (out, p1 # ps', w'))
      | (Inr result, p1, w1) \<Rightarrow>
          if truthy (validate_result result) then (Some (Inr result), p1 # ps, w1)
          else
            (case fallback_loop ps codebase input_data system_doc w1 of
               (out, ps', w') \<Rightarrow> (out, p1 # ps', w')))"

definition set_lane :: "RoutingLane \<Rightarrow> AIProvider list \<Rightarrow> CortexRouter \<Rightarrow> CortexRouter" where
  "set_lane la ps rt = (if la = SMART then rt\<lparr>smart_lane := ps\<rparr> else rt\<lparr>fast_lane := ps\<rparr>)"

definition analyze_with_fallback ::
  "CortexRouter \<Rightarrow> (string \<times> string) list \<Rightarrow> pydict \<Rightarrow> string option \<Rightarrow> string option \<Rightarrow> world
     \<Rightarrow> (exn + pydict) \<times> CortexRouter \<times> world" where
  "analyze_with_fallback rt codebase input_data system_doc user_intent w =
     (case route_analysis rt codebase input_data system_doc user_intent of
        Inl e \<Rightarrow> (Inl e, rt, w)
      | Inr decision \<Rightarrow>
          (case primary_loop (if lane decision = SMART then smart_lane rt else fast_lane rt)
                  codebase input_data system_doc w of
             (Some out, ps1, w1) \<Rightarrow> (out, set_lane (lane decision) ps1 rt, w1)
           | (None, ps1, w1) \<Rightarrow>
               (let rt1 = set_lane (lane decision) ps1 rt;
                    fallback_lane = (if lane decision = SMART then fast_lane rt1 else smart_lane rt1)
                in case fallback_loop fallback_lane codebase input_data system_doc w1 of
                     (Some out, ps2, w2) \<Rightarrow>
                       (out, set_lane (if lane decision = SMART then FAST else SMART) ps2 rt1, w2)
                   | (None, ps2, w2) \<Rightarrow>
                       (Inl (Exception ''All AI providers failed''),
                        set_lane (if lane decision = SMART then FAST else SMART) ps2 rt1, w2))))"

text \<open>
  The tests of the repository look for a word in \<^verbatim>\<open>decision.reason.lower()\<close>:
  \<^verbatim>\<open>str.lower\<close> on ASCII letters and the substring test \<^verbatim>\<open>sub in s\<close>.
\<close>

definition lower_char :: "char \<Rightarrow> char" where
  "lower_char c =
     (let n = (of_char c :: nat) in if 65 \<le> n \<and> n \<le> 90 then char_of (n + 32) else c)"

definition lower :: "string \<Rightarrow> string" where
  "lower s = map lower_char s"

fun contains :: "string \<Rightarrow> string \<Rightarrow> bool" where
  "contains sub [] = (sub = [])"
| "contains sub (c # s) = (take (length sub) (c # s) = sub \<or> contains sub s)"

text \<open>Environments and operations for the concrete runs below.\<close>

definition world0 :: "(string \<Rightarrow> nat \<Rightarrow> exn + pydict) \<Rightarrow> world" where
  "world0 rs = \<lparr>clock = (\<lambda>k. 1000 + real k / 4), reads = 0, responses = rs, invoked = (\<lambda>p. 0)\<rparr>"

definition failing :: "unit operation" where
  "failing w = (Inl (Exception ''Failed''), w)"

definition succeeding :: "unit operation" where
  "succeeding w = (Inr (), w)"

definition valid_result :: pydict where
  "valid_result = [(''success'', PBool True), (''result'', PStr ''Analysis complete'')]"

definition all_valid :: "string \<Rightarrow> nat \<Rightarrow> exn + pydict" where
  "all_valid p k = Inr valid_result"

definition breaker3 :: CircuitBreaker where
  "breaker3 = CircuitBreaker_init ''test''
     \<lparr>failure_threshold = 3, success_threshold = 2, timeout = 1, window_size = 100\<rparr>"

definition open_breaker :: CircuitBreaker where
  "open_breaker = breaker3\<lparr>state := OPEN, opened_at := Some 1000\<rparr>"

definition elapsed_breaker :: CircuitBreaker where
  "elapsed_breaker = breaker3\<lparr>state := OPEN, opened_at := Some 900\<rparr>"

definition half_open_breaker :: CircuitBreaker where
  "half_open_breaker = breaker3\<lparr>state := HALF_OPEN, success_count := 1, opened_at := Some 900\<rparr>"

definition big_codebase :: "(string \<times> string) list" where
  "big_codebase = [(''big.py'', replicate 150000 CHR ''x'')]"

definition threshold_codebase :: "(string \<times> string) list" where
  "threshold_codebase = [(''a.py'', replicate 60000 CHR ''x''), (''b.py'', replicate 40000 CHR ''y'')]"

definition router_without_ollama :: CortexRouter where
  "router_without_ollama =
     \<lparr>fast_lane = [GroqProvider, GeminiProvider], smart_lane = [ClaudeProvider, OpenAIProvider]\<rparr>"

definition ollama_down :: "string \<Rightarrow> nat \<Rightarrow> exn + pydict" where
  "ollama_down p k = (if p = ''ollama'' then Inl (Exception ''Failed'') else Inr valid_result)"

definition valid_then_error :: "string \<Rightarrow> nat \<Rightarrow> exn + pydict" where
  "valid_then_error p k = (if k = 0 then Inr valid_result else Inl (Exception ''Failed''))"

section \<open>Facts about a single call\<close>

lemma call_not_open:
  "state cb \<noteq> OPEN \<Longrightarrow>
   call cb func w =
     (case func w of
        (Inr v, w2) \<Rightarrow> (Inr v, on_success cb, w2)
      | (Inl e, w2) \<Rightarrow> (Inl e, on_failure cb w2))"
  by (simp add: call_def split: prod.splits sum.splits)

lemma call_open_elapsed:
  "state cb = OPEN \<Longrightarrow> opened_at cb = Some t0 \<Longrightarrow> timeout (config cb) \<le> clock w (reads w) - t0 \<Longrightarrow>
   call cb func w = call (transition_to_half_open cb) func (w\<lparr>reads := Suc (reads w)\<rparr>)"
  by (simp add: call_def should_attempt_reset_def time_time_def transition_to_half_open_def
           split: prod.splits sum.splits)

lemma call_open_blocked:
  "state cb = OPEN \<Longrightarrow> opened_at cb = Some t0 \<Longrightarrow> clock w (reads w) - t0 < timeout (config cb) \<Longrightarrow>
   call cb func w =
     (Inl (CircuitBreakerError (provider_name cb)
            (max 0 (timeout (config cb) - (clock w (Suc (reads w)) - t0)))),
      cb, w\<lparr>reads := Suc (Suc (reads w))\<rparr>)"
  by (simp add: call_def should_attempt_reset_def time_time_def)

lemma on_failure_closed:
  "state cb = CLOSED \<Longrightarrow>
   on_failure cb w =
     (if failure_count cb + 1 \<ge> failure_threshold (config cb)
      then (cb\<lparr>call_history := deque_append (window_size (config cb)) (call_history cb) False,
               failure_count := 0, state := OPEN, opened_at := Some (clock w (reads w)), success_count := 0\<rparr>,
            w\<lparr>reads := Suc (reads w)\<rparr>)
      else (cb\<lparr>call_history := deque_append (window_size (config cb)) (call_history cb) False,
               failure_count := failure_count cb + 1\<rparr>, w))"
  by (simp add: on_failure_def transition_to_open_def time_time_def Let_def)

lemma call_closed_raises:
  assumes "state cb = CLOSED" "raises f"
  shows "let cb' = fst (snd (call cb f w)) in
           config cb' = config cb \<and>
           (if failure_count cb + 1 \<ge> failure_threshold (config cb)
            then state cb' = OPEN \<and> failure_count cb' = 0 \<and> success_count cb' = 0
            else state cb' = CLOSED \<and> failure_count cb' = failure_count cb + 1)"
proof -
  obtain e w2 where f: "f w = (Inl e, w2)"
    using assms(2) by (cases "f w"; cases "fst (f w)") (auto simp: raises_def dest: spec[of _ w])
  show ?thesis using assms(1)
    by (simp add: call_not_open f on_failure_closed Let_def)
qed

lemma calls_append:
  "calls cb (fs @ gs) w = (case calls cb fs w of (cb', w') \<Rightarrow> calls cb' gs w')"
  by (induction fs arbitrary: cb w) (auto split: prod.splits)

lemma calls_raises_closed:
  assumes "\<forall>f\<in>set fs. raises f" "state cb = CLOSED"
    and "failure_count cb + int (length fs) < failure_threshold (config cb)"
  shows "state (fst (calls cb fs w)) = CLOSED \<and>
         failure_count (fst (calls cb fs w)) = failure_count cb + int (length fs) \<and>
         config (fst (calls cb fs w)) = config cb"
  using assms
proof (induction fs arbitrary: cb w)
  case Nil
  then show ?case by simp
next
  case (Cons f fs)
  obtain r cb' w' where c: "call cb f w = (r, cb', w')" by (cases "call cb f w") auto
  have rf: "raises f" using Cons.prems(1) by simp
  have step: "config cb' = config cb \<and> state cb' = CLOSED \<and> failure_count cb' = failure_count cb + 1"
    using call_closed_raises[OF Cons.prems(2) rf, of w] Cons.prems(3) c
    by (simp add: Let_def split: if_splits)
  have "state (fst (calls cb' fs w')) = CLOSED \<and>
        failure_count (fst (calls cb' fs w')) = failure_count cb' + int (length fs) \<and>
        config (fst (calls cb' fs w')) = config cb'"
    using Cons.IH[of cb' w'] Cons.prems step by simp
  then show ?case using c step by simp
qed

lemma calls_raises_open:
  assumes "\<forall>f\<in>set fs. raises f" "state cb = CLOSED" "fs \<noteq> []"
    and "failure_count cb + int (length fs) = failure_threshold (config cb)"
  shows "state (fst (calls cb fs w)) = OPEN \<and>
         failure_count (fst (calls cb fs w)) = 0 \<and>
         success_count (fst (calls cb fs w)) = 0"
proof -
  obtain gs g where fs: "fs = gs @ [g]" using assms(3) by (cases fs rule: rev_cases) auto
  obtain cb1 w1 where c1: "calls cb gs w = (cb1, w1)" by (cases "calls cb gs w") auto
  have pre: "state cb1 = CLOSED \<and> failure_count cb1 = failure_count cb + int (length gs) \<and> config cb1 = config cb"
    using calls_raises_closed[of gs cb w] assms fs c1 by simp
  have rg: "raises g" using assms(1) fs by simp
  obtain r cb2 w2 where c2: "call cb1 g w1 = (r, cb2, w2)" by (cases "call cb1 g w1") auto
  have "state cb2 = OPEN \<and> failure_count cb2 = 0 \<and> success_count cb2 = 0"
    using call_closed_raises[of cb1 g w1] pre rg assms(4) fs c2 by (simp add: Let_def split: if_splits)
  then show ?thesis by (simp add: fs calls_append c1 c2)
qed

lemma obtain_returns:
  assumes "returns f" obtains v w2 where "f w = (Inr v, w2)"
  using assms by (cases "f w"; cases "fst (f w)") (auto simp: returns_def dest: spec[of _ w])

lemma obtain_raises:
  assumes "raises f" obtains e w2 where "f w = (Inl e, w2)"
  using assms by (cases "f w"; cases "fst (f w)") (auto simp: raises_def dest: spec[of _ w])

lemma call_closed_returns:
  assumes "state cb = CLOSED" "returns f"
  shows "state (fst (snd (call cb f w))) = CLOSED \<and> failure_count (fst (snd (call cb f w))) = 0"
proof -
  obtain v w2 where f: "f w = (Inr v, w2)" using assms(2) by (rule obtain_returns)
  show ?thesis using assms(1) by (simp add: call_not_open f on_success_def Let_def)
qed

lemma call_half_open_returns:
  assumes "state cb = HALF_OPEN" "returns f"
  shows "let cb' = fst (snd (call cb f w)) in
           config cb' = config cb \<and>
           (if success_count cb + 1 \<ge> success_threshold (config cb)
            then state cb' = CLOSED \<and> failure_count cb' = 0 \<and> success_count cb' = 0 \<and> opened_at cb' = None
            else state cb' = HALF_OPEN \<and> success_count cb' = success_count cb + 1
                 \<and> opened_at cb' = opened_at cb)"
proof -
  obtain v w2 where f: "f w = (Inr v, w2)" using assms(2) by (rule obtain_returns)
  show ?thesis using assms(1)
    by (simp add: call_not_open f on_success_def transition_to_closed_def Let_def)
qed

lemma call_half_open_raises:
  assumes "state cb = HALF_OPEN" "raises f"
  shows "let cb' = fst (snd (call cb f w)) in
           state cb' = OPEN \<and> failure_count cb' = 0 \<and> success_count cb' = 0"
proof -
  obtain e w2 where f: "f w = (Inl e, w2)" using assms(2) by (rule obtain_raises)
  show ?thesis using assms(1)
    by (simp add: call_not_open f on_failure_def transition_to_open_def time_time_def Let_def)
qed

lemma calls_returns_half_open:
  assumes "\<forall>f\<in>set fs. returns f" "state cb = HALF_OPEN"
    and "success_count cb + int (length fs) < success_threshold (config cb)"
  shows "state (fst (calls cb fs w)) = HALF_OPEN \<and>
         success_count (fst (calls cb fs w)) = success_count cb + int (length fs) \<and>
         opened_at (fst (calls cb fs w)) = opened_at cb \<and>
         config (fst (calls cb fs w)) = config cb"
  using assms
proof (induction fs arbitrary: cb w)
  case Nil
  then show ?case by simp
next
  case (Cons f fs)
  obtain r cb' w' where c: "call cb f w = (r, cb', w')" by (cases "call cb f w") auto
  have rf: "returns f" using Cons.prems(1) by simp
  have step: "config cb' = config cb \<and> state cb' = HALF_OPEN \<and> success_count cb' = success_count cb + 1
              \<and> opened_at cb' = opened_at cb"
    using call_half_open_returns[OF Cons.prems(2) rf, of w] Cons.prems(3) c
    by (simp add: Let_def split: if_splits)
  have "state (fst (calls cb' fs w')) = HALF_OPEN \<and>
        success_count (fst (calls cb' fs w')) = success_count cb' + int (length fs) \<and>
        opened_at (fst (calls cb' fs w')) = opened_at cb' \<and>
        config (fst (calls cb' fs w')) = config cb'"
    using Cons.IH[of cb' w'] Cons.prems step by simp
  then show ?case using c step by simp
qed

lemma calls_returns_closed:
  assumes "\<forall>f\<in>set fs. returns f" "state cb = HALF_OPEN" "fs \<noteq> []"
    and "success_count cb + int (length fs) = success_threshold (config cb)"
  shows "state (fst (calls cb fs w)) = CLOSED \<and>
         failure_count (fst (calls cb fs w)) = 0 \<and>
         success_count (fst (calls cb fs w)) = 0 \<and>
         opened_at (fst (calls cb fs w)) = None"
proof -
  obtain gs g where fs: "fs = gs @ [g]" using assms(3) by (cases fs rule: rev_cases) auto
  obtain cb1 w1 where c1: "calls cb gs w = (cb1, w1)" by (cases "calls cb gs w") auto
  have pre: "state cb1 = HALF_OPEN \<and> success_count cb1 = success_count cb + int (length gs) \<and> config cb1 = config cb"
    using calls_returns_half_open[of gs cb w] assms fs c1 by simp
  have rg: "returns g" using assms(1) fs by simp
  obtain r cb2 w2 where c2: "call cb1 g w1 = (r, cb2, w2)" by (cases "call cb1 g w1") auto
  have "state cb2 = CLOSED \<and> failure_count cb2 = 0 \<and> success_count cb2 = 0 \<and> opened_at cb2 = None"
    using call_half_open_returns[of cb1 g w1] pre rg assms(4) fs c2 by (simp add: Let_def split: if_splits)
  then show ?thesis by (simp add: fs calls_append c1 c2)
qed

lemma on_success_inv:
  "opened_at_inv cb \<Longrightarrow> opened_at_inv (on_success cb)"
  by (cases "state cb") (auto simp: opened_at_inv_def on_success_def transition_to_closed_def Let_def)

lemma on_failure_inv:
  "opened_at_inv cb \<Longrightarrow> opened_at_inv (fst (on_failure cb w))"
  by (cases "state cb") (auto simp: opened_at_inv_def on_failure_def transition_to_open_def time_time_def Let_def)

lemma call_cases:
  "(\<exists>e w'. call cb func w = (Inl e, cb, w')) \<or>
   (\<exists>cb1 w1. (cb1 = cb \<and> state cb \<noteq> OPEN \<or> cb1 = transition_to_half_open cb \<and> state cb = OPEN \<and> opened_at cb \<noteq> None) \<and>
      ((\<exists>v w2. call cb func w = (Inr v, on_success cb1, w2)) \<or>
       (\<exists>e w2. call cb func w = (Inl e, on_failure cb1 w2))))"
  by (cases "func w"; cases "fst (func w)"; cases "func (snd (time_time w))"; cases "fst (func (snd (time_time w)))")
     (auto simp: call_def should_attempt_reset_def Let_def split: prod.splits option.splits sum.splits)

lemma call_world_not_open:
  "state cb \<noteq> OPEN \<Longrightarrow> fst (call cb func w) = fst (func w)"
  by (simp add: call_not_open split: prod.splits sum.splits)

lemma call_invoked_not_open:
  "state cb \<noteq> OPEN \<Longrightarrow>
   invoked (snd (snd (call cb (vendor_call p) w))) = (invoked w)(p := Suc (invoked w p))"
  by (simp add: call_not_open vendor_call_def on_failure_def transition_to_open_def time_time_def Let_def
           split: prod.splits sum.splits)

section \<open>The threshold of the breaker\<close>

text \<open>
  Claim C3. Take a breaker that is \<open>CLOSED\<close> with failure counter \<open>0\<close> and failure
  threshold \<open>F \<ge> 1\<close>, and run calls whose operations all raise. After \<open>n < F\<close> such
  calls the breaker is still \<open>CLOSED\<close> and its failure counter is \<open>n\<close>; after \<open>F\<close> such
  calls it is \<open>OPEN\<close> and both counters are \<open>0\<close>. A call that returns on any
  \<open>CLOSED\<close> breaker leaves it \<open>CLOSED\<close> with failure counter \<open>0\<close>.
\<close>

theorem breaker_threshold:
  assumes "state cb = CLOSED" and "failure_count cb = 0"
    and "1 \<le> failure_threshold (config cb)"
    and "\<forall>f\<in>set fs. raises f"
  shows "(int (length fs) < failure_threshold (config cb) \<longrightarrow>
            state (fst (calls cb fs w)) = CLOSED \<and>
            failure_count (fst (calls cb fs w)) = int (length fs)) \<and>
         (int (length fs) = failure_threshold (config cb) \<longrightarrow>
            state (fst (calls cb fs w)) = OPEN \<and>
            failure_count (fst (calls cb fs w)) = 0 \<and>
            success_count (fst (calls cb fs w)) = 0) \<and>
         (state c = CLOSED \<and> returns g \<longrightarrow>
            state (fst (snd (call c g w'))) = CLOSED \<and>
            failure_count (fst (snd (call c g w'))) = 0)"
proof (intro conjI impI)
  assume "int (length fs) < failure_threshold (config cb)"
  then show "state (fst (calls cb fs w)) = CLOSED"
    and "failure_count (fst (calls cb fs w)) = int (length fs)"
    using calls_raises_closed[of fs cb w] assms by simp_all
next
  assume n: "int (length fs) = failure_threshold (config cb)"
  then have "fs \<noteq> []" using assms(3) by auto
  then show "state (fst (calls cb fs w)) = OPEN"
    and "failure_count (fst (calls cb fs w)) = 0"
    and "success_count (fst (calls cb fs w)) = 0"
    using calls_raises_open[of fs cb w] assms n by simp_all
next
  assume "state c = CLOSED \<and> returns g"
  then show "state (fst (snd (call c g w'))) = CLOSED"
    and "failure_count (fst (snd (call c g w'))) = 0"
    using call_closed_returns[of c g w'] by simp_all
qed

theorem breaker_threshold_witness:
  "state breaker3 = CLOSED \<and> failure_count breaker3 = 0 \<and> 1 \<le> failure_threshold (config breaker3) \<and>
   raises failing \<and> returns succeeding \<and>
   state (fst (calls breaker3 [failing, failing] (world0 (\<lambda>p k. Inr [])))) = CLOSED \<and>
   failure_count (fst (calls breaker3 [failing, failing] (world0 (\<lambda>p k. Inr [])))) = 2 \<and>
   state (fst (calls breaker3 [failing, failing, failing] (world0 (\<lambda>p k. Inr [])))) = OPEN \<and>
   failure_count (fst (calls breaker3 [failing, failing, failing] (world0 (\<lambda>p k. Inr [])))) = 0 \<and>
   failure_count (fst (snd (call (breaker3\<lparr>failure_count := 2\<rparr>) succeeding (world0 (\<lambda>p k. Inr []))))) = 0"
proof -
  have h: "state breaker3 = CLOSED" "failure_count breaker3 = 0"
    "1 \<le> failure_threshold (config breaker3)"
    by (simp_all add: breaker3_def CircuitBreaker_init_def)
  have r: "raises failing" "returns succeeding"
    by (simp_all add: raises_def returns_def failing_def succeeding_def)
  have r2: "\<forall>f\<in>set [failing, failing]. raises f" 
    and r3: "\<forall>f\<in>set [failing, failing, failing]. raises f" using r by simp_all
  have c: "state (breaker3\<lparr>failure_count := 2\<rparr>) = CLOSED" using h by simp
  show ?thesis
    using breaker_threshold[OF h r2, of "world0 (\<lambda>p k. Inr [])" "breaker3\<lparr>failure_count := 2\<rparr>" succeeding "world0 (\<lambda>p k. Inr [])"]
      breaker_threshold[OF h r3, of "world0 (\<lambda>p k. Inr [])" "breaker3\<lparr>failure_count := 2\<rparr>" succeeding "world0 (\<lambda>p k. Inr [])"]
      h r c
    by (simp add: breaker3_def CircuitBreaker_init_def)
qed

section \<open>An open breaker blocks\<close>

text \<open>
  Claim C4. Take a breaker that is \<open>OPEN\<close> since \<open>t0\<close> and a call during which the clock
  stays below \<open>t0 + timeout\<close>, both at the reading that decides whether to try again and at
  the reading from which the remaining wait is computed. The call raises
  \<open>CircuitBreakerError\<close> with the provider's name and \<open>timeout - elapsed\<close>, where
  \<open>elapsed\<close> is taken at the second reading. The breaker afterwards is the breaker before
  (state, counters, timestamp and history), and the environment has changed by the two clock
  readings only, whatever the operation is: it has not run. For the vendor request of a
  provider this says that no invocation was counted.
\<close>

theorem open_blocks_call:
  assumes "state cb = OPEN" and "opened_at cb = Some t0"
    and "clock w (reads w) - t0 < timeout (config cb)"
    and "clock w (Suc (reads w)) - t0 < timeout (config cb)"
  shows "call cb func w =
           (Inl (CircuitBreakerError (provider_name cb)
                  (timeout (config cb) - (clock w (Suc (reads w)) - t0))),
            cb, w\<lparr>reads := reads w + 2\<rparr>) \<and>
         invoked (snd (snd (call cb (vendor_call p) w))) = invoked w"
  using assms by (simp add: call_open_blocked max_def)

theorem open_blocks_call_witness:
  "state open_breaker = OPEN \<and> opened_at open_breaker = Some 1000 \<and>
   clock (world0 all_valid) (reads (world0 all_valid)) - 1000 < timeout (config open_breaker) \<and>
   clock (world0 all_valid) (Suc (reads (world0 all_valid))) - 1000 < timeout (config open_breaker) \<and>
   call open_breaker (vendor_call ''test'') (world0 all_valid) =
     (Inl (CircuitBreakerError ''test'' (3 / 4)), open_breaker, (world0 all_valid)\<lparr>reads := 2\<rparr>) \<and>
   invoked (snd (snd (call open_breaker (vendor_call ''test'') (world0 all_valid)))) ''test'' = 0"
proof -
  have h: "state open_breaker = OPEN" "opened_at open_breaker = Some 1000"
    "clock (world0 all_valid) (reads (world0 all_valid)) - 1000 < timeout (config open_breaker)"
    "clock (world0 all_valid) (Suc (reads (world0 all_valid))) - 1000 < timeout (config open_breaker)"
    by (simp_all add: open_breaker_def breaker3_def CircuitBreaker_init_def world0_def)
  show ?thesis
    using open_blocks_call[OF h, of "vendor_call ''test''" "''test''"] h
    by (simp add: open_breaker_def breaker3_def CircuitBreaker_init_def world0_def)
qed

section \<open>Recovery through the half-open state\<close>

text \<open>
  Claim C5, for a success threshold \<open>S \<ge> 1\<close>.
  \<^item> A call on a breaker that is \<open>OPEN\<close> since \<open>t0\<close>, made when the clock reads at least
    \<open>t0 + timeout\<close>, is a call on the same breaker put into \<open>HALF_OPEN\<close> with success
    counter \<open>0\<close>: the operation runs (its outcome is the outcome of the call, and a vendor
    request is counted once), and \<open>S\<close> calls in a row that return, this one included, leave
    the breaker \<open>CLOSED\<close> with both counters \<open>0\<close> and no timestamp.
  \<^item> In \<open>HALF_OPEN\<close> with success counter \<open>c\<close>, calls that return keep the breaker
    \<open>HALF_OPEN\<close> and count up while the counter stays below \<open>S\<close>; the call that brings
    it to \<open>S\<close> closes the breaker, with both counters \<open>0\<close> and no timestamp.
  \<^item> In \<open>HALF_OPEN\<close> a single call that raises opens the breaker again, whatever the
    success counter was, and both counters are \<open>0\<close> afterwards.
\<close>

theorem half_open_recovery:
  assumes "1 \<le> success_threshold (config cb)"
  shows
    "(state cb = OPEN \<and> opened_at cb = Some t0 \<and> timeout (config cb) \<le> clock w (reads w) - t0 \<longrightarrow>
        call cb func w = call (cb\<lparr>state := HALF_OPEN, success_count := 0\<rparr>) func (w\<lparr>reads := Suc (reads w)\<rparr>) \<and>
        fst (call cb func w) = fst (func (w\<lparr>reads := Suc (reads w)\<rparr>)) \<and>
        invoked (snd (snd (call cb (vendor_call p) w))) p = Suc (invoked w p) \<and>
        ((\<forall>f\<in>set fs. returns f) \<and> int (length fs) = success_threshold (config cb) \<longrightarrow>
           state (fst (calls cb fs w)) = CLOSED \<and>
           failure_count (fst (calls cb fs w)) = 0 \<and>
           success_count (fst (calls cb fs w)) = 0 \<and>
           opened_at (fst (calls cb fs w)) = None)) \<and>
     (state cb = HALF_OPEN \<and> (\<forall>f\<in>set fs. returns f) \<longrightarrow>
        (success_count cb + int (length fs) < success_threshold (config cb) \<longrightarrow>
           state (fst (calls cb fs w)) = HALF_OPEN \<and>
           success_count (fst (calls cb fs w)) = success_count cb + int (length fs)) \<and>
        (success_count cb + int (length fs) = success_threshold (config cb) \<and> fs \<noteq> [] \<longrightarrow>
           state (fst (calls cb fs w)) = CLOSED \<and>
           failure_count (fst (calls cb fs w)) = 0 \<and>
           success_count (fst (calls cb fs w)) = 0 \<and>
           opened_at (fst (calls cb fs w)) = None)) \<and>
     (state cb = HALF_OPEN \<and> raises g \<longrightarrow>
        state (fst (snd (call cb g w))) = OPEN \<and>
        success_count (fst (snd (call cb g w))) = 0 \<and>
        failure_count (fst (snd (call cb g w))) = 0)"
proof (intro conjI impI)
  assume a: "state cb = OPEN \<and> opened_at cb = Some t0 \<and> timeout (config cb) \<le> clock w (reads w) - t0"
  let ?h = "cb\<lparr>state := HALF_OPEN, success_count := 0\<rparr>"
  let ?w = "w\<lparr>reads := Suc (reads w)\<rparr>"
  show e: "call cb func w = call ?h func ?w"
    using a call_open_elapsed[of cb t0 w func] by (simp add: transition_to_half_open_def)
  show "fst (call cb func w) = fst (func ?w)"
    using e call_world_not_open[of ?h func ?w] by simp
  have "call cb (vendor_call p) w = call ?h (vendor_call p) ?w"
    using a call_open_elapsed[of cb t0 w "vendor_call p"] by (simp add: transition_to_half_open_def)
  then show "invoked (snd (snd (call cb (vendor_call p) w))) p = Suc (invoked w p)"
    using call_invoked_not_open[of ?h p ?w] by simp
  assume b: "(\<forall>f\<in>set fs. returns f) \<and> int (length fs) = success_threshold (config cb)"
  then have ne: "fs \<noteq> []" using assms by auto
  then obtain f fs' where fs: "fs = f # fs'" by (cases fs) auto
  have "call cb f w = call ?h f ?w"
    using a call_open_elapsed[of cb t0 w f] by (simp add: transition_to_half_open_def)
  then have c: "calls cb fs w = calls ?h fs ?w" by (simp add: fs)
  have "state (fst (calls ?h fs ?w)) = CLOSED \<and>
        failure_count (fst (calls ?h fs ?w)) = 0 \<and>
        success_count (fst (calls ?h fs ?w)) = 0 \<and>
        opened_at (fst (calls ?h fs ?w)) = None"
    using calls_returns_closed[of fs ?h ?w] b ne by simp
  then show "state (fst (calls cb fs w)) = CLOSED"
    and "failure_count (fst (calls cb fs w)) = 0"
    and "success_count (fst (calls cb fs w)) = 0"
    and "opened_at (fst (calls cb fs w)) = None"
    using c by simp_all
next
  assume a: "state cb = HALF_OPEN \<and> (\<forall>f\<in>set fs. returns f)"
    and b: "success_count cb + int (length fs) < success_threshold (config cb)"
  show "state (fst (calls cb fs w)) = HALF_OPEN"
    and "success_count (fst (calls cb fs w)) = success_count cb + int (length fs)"
    using calls_returns_half_open[of fs cb w] a b by simp_all
next
  assume a: "state cb = HALF_OPEN \<and> (\<forall>f\<in>set fs. returns f)"
    and b: "success_count cb + int (length fs) = success_threshold (config cb) \<and> fs \<noteq> []"
  show "state (fst (calls cb fs w)) = CLOSED"
    and "failure_count (fst (calls cb fs w)) = 0"
    and "success_count (fst (calls cb fs w)) = 0"
    and "opened_at (fst (calls cb fs w)) = None"
    using calls_returns_closed[of fs cb w] a b by simp_all
next
  assume a: "state cb = HALF_OPEN \<and> raises g"
  show "state (fst (snd (call cb g w))) = OPEN"
    and "success_count (fst (snd (call cb g w))) = 0"
    and "failure_count (fst (snd (call cb g w))) = 0"
    using call_half_open_raises[of cb g w] a by (simp_all add: Let_def)
qed

theorem half_open_recovery_witness:
  "1 \<le> success_threshold (config elapsed_breaker) \<and>
   state elapsed_breaker = OPEN \<and> opened_at elapsed_breaker = Some 900 \<and>
   timeout (config elapsed_breaker) \<le> clock (world0 all_valid) (reads (world0 all_valid)) - 900 \<and>
   returns succeeding \<and> raises failing \<and>
   state (fst (snd (call elapsed_breaker succeeding (world0 all_valid)))) = HALF_OPEN \<and>
   success_count (fst (snd (call elapsed_breaker succeeding (world0 all_valid)))) = 1 \<and>
   invoked (snd (snd (call elapsed_breaker (vendor_call ''test'') (world0 all_valid)))) ''test'' = 1 \<and>
   state (fst (calls elapsed_breaker [succeeding, succeeding] (world0 all_valid))) = CLOSED \<and>
   opened_at (fst (calls elapsed_breaker [succeeding, succeeding] (world0 all_valid))) = None \<and>
   state half_open_breaker = HALF_OPEN \<and>
   state (fst (calls half_open_breaker [succeeding] (world0 all_valid))) = CLOSED \<and>
   state (fst (snd (call half_open_breaker failing (world0 all_valid)))) = OPEN \<and>
   success_count (fst (snd (call half_open_breaker failing (world0 all_valid)))) = 0"
proof -
  have s: "1 \<le> success_threshold (config elapsed_breaker)"
    "1 \<le> success_threshold (config half_open_breaker)"
    by (simp_all add: elapsed_breaker_def half_open_breaker_def breaker3_def CircuitBreaker_init_def)
  have h: "state elapsed_breaker = OPEN \<and> opened_at elapsed_breaker = Some 900 \<and>
      timeout (config elapsed_breaker) \<le> clock (world0 all_valid) (reads (world0 all_valid)) - 900"
    "state half_open_breaker = HALF_OPEN"
    "success_count half_open_breaker = 1" "success_threshold (config half_open_breaker) = 2"
    "success_threshold (config elapsed_breaker) = 2"
    by (simp_all add: elapsed_breaker_def half_open_breaker_def breaker3_def CircuitBreaker_init_def world0_def)
  have r: "returns succeeding" "raises failing"
    by (simp_all add: raises_def returns_def failing_def succeeding_def)
  have e: "state (fst (snd (call elapsed_breaker succeeding (world0 all_valid)))) = HALF_OPEN"
    "success_count (fst (snd (call elapsed_breaker succeeding (world0 all_valid)))) = 1"
    by (simp_all add: call_def should_attempt_reset_def time_time_def transition_to_half_open_def on_success_def
          succeeding_def elapsed_breaker_def breaker3_def CircuitBreaker_init_def world0_def Let_def)
  have rs: "\<forall>f\<in>set [succeeding, succeeding]. returns f" "\<forall>f\<in>set [succeeding]. returns f"
    using r by simp_all
  have l: "int (length [succeeding, succeeding]) = success_threshold (config elapsed_breaker)"
    "success_count half_open_breaker + int (length [succeeding]) = success_threshold (config half_open_breaker) \<and> [succeeding] \<noteq> []"
    using h by simp_all
  note T1 = half_open_recovery[OF s(1), of 900 "world0 all_valid" "vendor_call ''test''" "''test''" "[succeeding, succeeding]" failing]
  note T2 = half_open_recovery[OF s(2), of 900 "world0 all_valid" "vendor_call ''test''" "''test''" "[succeeding]" failing]
  have a: "invoked (snd (snd (call elapsed_breaker (vendor_call ''test'') (world0 all_valid)))) ''test''
             = Suc (invoked (world0 all_valid) ''test'')"
    using T1 h(1) by blast
  have b: "state (fst (calls elapsed_breaker [succeeding, succeeding] (world0 all_valid))) = CLOSED \<and>
           opened_at (fst (calls elapsed_breaker [succeeding, succeeding] (world0 all_valid))) = None"
    using T1 h(1) rs(1) l(1) by blast
  have c: "state (fst (calls half_open_breaker [succeeding] (world0 all_valid))) = CLOSED"
    using T2 h(2) rs(2) l(2) by blast
  have d: "state (fst (snd (call half_open_breaker failing (world0 all_valid)))) = OPEN \<and>
           success_count (fst (snd (call half_open_breaker failing (world0 all_valid)))) = 0"
    using T2 h(2) r(2) by blast
  have i0: "invoked (world0 all_valid) ''test'' = 0" by (simp add: world0_def)
  show ?thesis using s(1) h(1,2) r e a b c d i0 by simp
qed

section \<open>The timestamp and the state\<close>

text \<open>
  Claim C10. \<^verbatim>\<open>_opened_at\<close> is \<^verbatim>\<open>None\<close> exactly when the state is \<open>CLOSED\<close>: this holds
  of a new breaker and of a breaker after \<^verbatim>\<open>reset\<close>, and a call keeps it, whether the
  operation returns, raises or is blocked. A breaker that is \<open>HALF_OPEN\<close> after a call
  has the timestamp it had before the call, so it still carries the time at which it was last
  opened. A call that leaves no timestamp where there was one has closed a breaker that was not
  closed before.
\<close>

theorem opened_at_invariant:
  "opened_at_inv (CircuitBreaker_init nm cfg) \<and>
   opened_at_inv (reset cb) \<and>
   (opened_at_inv cb \<longrightarrow> opened_at_inv (fst (snd (call cb func w)))) \<and>
   (state (fst (snd (call cb func w))) = HALF_OPEN \<longrightarrow>
      opened_at (fst (snd (call cb func w))) = opened_at cb) \<and>
   (opened_at cb \<noteq> None \<and> opened_at (fst (snd (call cb func w))) = None \<longrightarrow>
      state (fst (snd (call cb func w))) = CLOSED \<and> state cb \<noteq> CLOSED)"
proof (intro conjI impI)
  show "opened_at_inv (CircuitBreaker_init nm cfg)"
    by (simp add: opened_at_inv_def CircuitBreaker_init_def)
  show "opened_at_inv (reset cb)"
    by (simp add: opened_at_inv_def reset_def)
next
  assume i: "opened_at_inv cb"
  have h: "state cb = OPEN \<Longrightarrow> opened_at cb \<noteq> None \<Longrightarrow> opened_at_inv (transition_to_half_open cb)"
    by (auto simp: opened_at_inv_def transition_to_half_open_def)
  show "opened_at_inv (fst (snd (call cb func w)))"
    using call_cases[of cb func w] i h
    by (elim disjE exE conjE) (auto simp: on_success_inv intro: on_failure_inv)
next
  assume "state (fst (snd (call cb func w))) = HALF_OPEN"
  then show "opened_at (fst (snd (call cb func w))) = opened_at cb"
    using call_cases[of cb func w]
    by (elim disjE exE conjE)
       (auto simp: on_success_def on_failure_def transition_to_open_def transition_to_closed_def
          transition_to_half_open_def time_time_def Let_def split: if_splits)
next
  assume a: "opened_at cb \<noteq> None \<and> opened_at (fst (snd (call cb func w))) = None"
  then show "state (fst (snd (call cb func w))) = CLOSED"
    using call_cases[of cb func w]
    by (elim disjE exE conjE)
       (auto simp: on_success_def on_failure_def transition_to_open_def transition_to_closed_def
          transition_to_half_open_def time_time_def Let_def split: if_splits)
  from a show "state cb \<noteq> CLOSED"
    using call_cases[of cb func w]
    by (elim disjE exE conjE)
       (auto simp: on_success_def on_failure_def transition_to_open_def transition_to_closed_def
          transition_to_half_open_def time_time_def Let_def split: if_splits)
qed

theorem opened_at_invariant_witness:
  "opened_at_inv elapsed_breaker \<and>
   opened_at_inv (fst (snd (call elapsed_breaker succeeding (world0 all_valid)))) \<and>
   state (fst (snd (call elapsed_breaker succeeding (world0 all_valid)))) = HALF_OPEN \<and>
   opened_at (fst (snd (call elapsed_breaker succeeding (world0 all_valid)))) = Some 900 \<and>
   opened_at half_open_breaker \<noteq> None \<and>
   opened_at (fst (snd (call half_open_breaker succeeding (world0 all_valid)))) = None \<and>
   state (fst (snd (call half_open_breaker succeeding (world0 all_valid)))) = CLOSED"
proof -
  have i: "opened_at_inv elapsed_breaker" "opened_at elapsed_breaker = Some 900"
    by (simp_all add: opened_at_inv_def elapsed_breaker_def breaker3_def CircuitBreaker_init_def)
  have e: "state (fst (snd (call elapsed_breaker succeeding (world0 all_valid)))) = HALF_OPEN"
    by (simp add: call_def should_attempt_reset_def time_time_def transition_to_half_open_def on_success_def
          succeeding_def elapsed_breaker_def breaker3_def CircuitBreaker_init_def world0_def Let_def)
  have h: "opened_at half_open_breaker \<noteq> None"
    by (simp add: half_open_breaker_def)
  have c: "opened_at (fst (snd (call half_open_breaker succeeding (world0 all_valid)))) = None"
    by (simp add: call_def on_success_def transition_to_closed_def
          succeeding_def half_open_breaker_def breaker3_def CircuitBreaker_init_def Let_def)
  note T1 = opened_at_invariant[of "''test''" "config breaker3" elapsed_breaker succeeding "world0 all_valid"]
  note T2 = opened_at_invariant[of "''test''" "config breaker3" half_open_breaker succeeding "world0 all_valid"]
  have a: "opened_at_inv (fst (snd (call elapsed_breaker succeeding (world0 all_valid))))"
    using T1 i(1) by blast
  have b: "opened_at (fst (snd (call elapsed_breaker succeeding (world0 all_valid)))) = opened_at elapsed_breaker"
    using T1 e by blast
  have d: "state (fst (snd (call half_open_breaker succeeding (world0 all_valid)))) = CLOSED"
    using T2 h c by blast
  show ?thesis using i e h c a b d by simp
qed

section \<open>The routing decision\<close>

lemma lower_reasons:
  "lower ''Large context size requires SMART lane'' = ''large context size requires smart lane''"
  "lower ''User requested local provider'' = ''user requested local provider''"
  "lower ''Default FAST lane'' = ''default fast lane''"
  by code_simp+

lemmas provider_defs = OllamaProvider_def GroqProvider_def GeminiProvider_def ClaudeProvider_def
  OpenAIProvider_def new_provider_def

text \<open>
  Claim C6. When the contents of the codebase add up to more than \<open>100000\<close> characters,
  \<^verbatim>\<open>route_analysis\<close> returns the first provider of the smart lane, in lane \<open>SMART\<close>,
  whatever the input data (the vision flag among them) and the user intent are. The reason is
  \<^verbatim>\<open>"Large context size requires SMART lane"\<close>, in which the repository's test finds the
  word \<^verbatim>\<open>context\<close> after lowercasing. The run below has \<open>150000\<close> characters and
  the intent \<^verbatim>\<open>--cheap\<close>.
\<close>

theorem large_context_routes_smart:
  assumes "sum_list (map (\<lambda>(path, content). int (length content)) codebase) > 100000"
    and "smart_lane rt = p # ps"
  shows "route_analysis rt codebase input_data system_doc user_intent =
           Inr \<lparr>provider = p, lane = SMART, reason = ''Large context size requires SMART lane''\<rparr> \<and>
         contains ''context'' (lower ''Large context size requires SMART lane'')"
  using assms by (simp add: route_analysis_def first_of_def lower_reasons)

theorem large_context_routes_smart_witness:
  "sum_list (map (\<lambda>(path, content). int (length content)) big_codebase) > 100000 \<and>
   smart_lane CortexRouter_init = [ClaudeProvider, OpenAIProvider] \<and>
   route_analysis CortexRouter_init big_codebase [(''has_vision'', PBool False)] None (Some ''--cheap'') =
     Inr \<lparr>provider = ClaudeProvider, lane = SMART, reason = ''Large context size requires SMART lane''\<rparr>"
proof -
  have h: "sum_list (map (\<lambda>(path, content). int (length content)) big_codebase) > 100000"
    "smart_lane CortexRouter_init = ClaudeProvider # [OpenAIProvider]"
    by (simp_all add: big_codebase_def CortexRouter_init_def)
  show ?thesis
    using large_context_routes_smart[OF h, of "[(''has_vision'', PBool False)]" None "Some ''--cheap''"] h
    by simp
qed

text \<open>
  Claim C7. With at most \<open>100000\<close> characters, no truthy \<^verbatim>\<open>has_vision\<close> and the intent
  \<^verbatim>\<open>--local\<close>: when the fast lane has a provider named \<^verbatim>\<open>ollama\<close>, the decision is
  the first such provider, lane \<open>FAST\<close>, reason \<^verbatim>\<open>"User requested local provider"\<close>
  (in lower case: "user requested local provider"); when the fast lane has none, the decision
  is the first provider of the fast lane with the reason of the default rule.
\<close>

theorem local_intent_routing:
  assumes "sum_list (map (\<lambda>(path, content). int (length content)) codebase) \<le> 100000"
    and "\<not> truthy (dict_get input_data ''has_vision'')"
  shows "((\<exists>q\<in>set (fast_lane rt). name q = ''ollama'') \<longrightarrow>
            (\<exists>p. route_analysis rt codebase input_data system_doc (Some ''--local'') =
                    Inr \<lparr>provider = p, lane = FAST, reason = ''User requested local provider''\<rparr> \<and>
                 p \<in> set (fast_lane rt) \<and> name p = ''ollama'' \<and>
                 find (\<lambda>q. name q = ''ollama'') (fast_lane rt) = Some p)) \<and>
         ((\<forall>q\<in>set (fast_lane rt). name q \<noteq> ''ollama'') \<and> fast_lane rt = q0 # qs \<longrightarrow>
            route_analysis rt codebase input_data system_doc (Some ''--local'') =
              Inr \<lparr>provider = q0, lane = FAST, reason = ''Default FAST lane''\<rparr>) \<and>
         lower ''User requested local provider'' = ''user requested local provider''"
proof (intro conjI impI)
  assume "\<exists>q\<in>set (fast_lane rt). name q = ''ollama''"
  then obtain p where p: "find (\<lambda>q. name q = ''ollama'') (fast_lane rt) = Some p"
    by (cases "find (\<lambda>q. name q = ''ollama'') (fast_lane rt)") (auto simp: find_None_iff)
  then have "p \<in> set (fast_lane rt) \<and> name p = ''ollama''"
    by (auto simp: find_Some_iff)
  then show "\<exists>p. route_analysis rt codebase input_data system_doc (Some ''--local'') =
                    Inr \<lparr>provider = p, lane = FAST, reason = ''User requested local provider''\<rparr> \<and>
                 p \<in> set (fast_lane rt) \<and> name p = ''ollama'' \<and>
                 find (\<lambda>q. name q = ''ollama'') (fast_lane rt) = Some p"
    using assms p by (intro exI[of _ p]) (simp add: route_analysis_def)
next
  assume a: "(\<forall>q\<in>set (fast_lane rt). name q \<noteq> ''ollama'') \<and> fast_lane rt = q0 # qs"
  then have "find (\<lambda>q. name q = ''ollama'') (fast_lane rt) = None"
    by (simp add: find_None_iff)
  then show "route_analysis rt codebase input_data system_doc (Some ''--local'') =
              Inr \<lparr>provider = q0, lane = FAST, reason = ''Default FAST lane''\<rparr>"
    using assms a by (simp add: route_analysis_def first_of_def)
next
  show "lower ''User requested local provider'' = ''user requested local provider''"
    by (rule lower_reasons)
qed

theorem local_intent_routing_witness:
  "sum_list (map (\<lambda>(path, content). int (length content)) [(''a.py'', ''print(1)'')]) \<le> 100000 \<and>
   \<not> truthy (dict_get [(''query'', PStr ''test'')] ''has_vision'') \<and>
   (\<exists>q\<in>set (fast_lane CortexRouter_init). name q = ''ollama'') \<and>
   route_analysis CortexRouter_init [(''a.py'', ''print(1)'')] [(''query'', PStr ''test'')] None (Some ''--local'') =
     Inr \<lparr>provider = OllamaProvider, lane = FAST, reason = ''User requested local provider''\<rparr> \<and>
   map name (fast_lane router_without_ollama) = [''groq'', ''gemini''] \<and>
   route_analysis router_without_ollama [(''a.py'', ''print(1)'')] [(''query'', PStr ''test'')] None (Some ''--local'') =
     Inr \<lparr>provider = GroqProvider, lane = FAST, reason = ''Default FAST lane''\<rparr>"
proof -
  have h: "sum_list (map (\<lambda>(path, content). int (length content)) [(''a.py'', ''print(1)'')]) \<le> 100000"
    "\<not> truthy (dict_get [(''query'', PStr ''test'')] ''has_vision'')"
    by (simp_all add: dict_get_def)
  have e: "\<exists>q\<in>set (fast_lane CortexRouter_init). name q = ''ollama''"
    by (simp add: CortexRouter_init_def provider_defs)
  have f: "find (\<lambda>q. name q = ''ollama'') (fast_lane CortexRouter_init) = Some OllamaProvider"
    by (simp add: CortexRouter_init_def provider_defs)
  have n: "(\<forall>q\<in>set (fast_lane router_without_ollama). name q \<noteq> ''ollama'') \<and>
           fast_lane router_without_ollama = GroqProvider # [GeminiProvider]"
    by (simp add: router_without_ollama_def provider_defs)
  note T1 = local_intent_routing[OF h, of CortexRouter_init None GroqProvider "[GeminiProvider]"]
  note T2 = local_intent_routing[OF h, of router_without_ollama None GroqProvider "[GeminiProvider]"]
  have a: "route_analysis CortexRouter_init [(''a.py'', ''print(1)'')] [(''query'', PStr ''test'')] None (Some ''--local'') =
     Inr \<lparr>provider = OllamaProvider, lane = FAST, reason = ''User requested local provider''\<rparr>"
    using T1 e f by auto
  have b: "route_analysis router_without_ollama [(''a.py'', ''print(1)'')] [(''query'', PStr ''test'')] None (Some ''--local'') =
     Inr \<lparr>provider = GroqProvider, lane = FAST, reason = ''Default FAST lane''\<rparr>"
    using T2 n by blast
  have m: "map name (fast_lane router_without_ollama) = [''groq'', ''gemini'']"
    by (simp add: router_without_ollama_def provider_defs)
  show ?thesis using h e m a b by simp
qed

text \<open>
  Claim C8. With exactly \<open>100000\<close> characters the large-context rule does not apply:
  no decision carries its reason, whatever the other inputs are; and without a truthy
  \<^verbatim>\<open>has_vision\<close> and without one of the three intents, the decision is the first provider
  of the fast lane by the default rule.
\<close>

theorem exact_threshold_routes_default:
  assumes "sum_list (map (\<lambda>(path, content). int (length content)) codebase) = 100000"
  shows "(\<forall>d. route_analysis rt codebase input_data system_doc user_intent = Inr d \<longrightarrow>
            reason d \<noteq> ''Large context size requires SMART lane'') \<and>
         (\<not> truthy (dict_get input_data ''has_vision'') \<and>
          user_intent \<noteq> Some ''--strong'' \<and> user_intent \<noteq> Some ''--local'' \<and>
          user_intent \<noteq> Some ''--cheap'' \<and> fast_lane rt = q0 # qs \<longrightarrow>
            route_analysis rt codebase input_data system_doc user_intent =
              Inr \<lparr>provider = q0, lane = FAST, reason = ''Default FAST lane''\<rparr>)"
proof (intro conjI impI allI)
  fix d
  assume "route_analysis rt codebase input_data system_doc user_intent = Inr d"
  then show "reason d \<noteq> ''Large context size requires SMART lane''"
    using assms
    by (auto simp: route_analysis_def first_of_def split: if_splits list.splits option.splits)
next
  assume "\<not> truthy (dict_get input_data ''has_vision'') \<and>
          user_intent \<noteq> Some ''--strong'' \<and> user_intent \<noteq> Some ''--local'' \<and>
          user_intent \<noteq> Some ''--cheap'' \<and> fast_lane rt = q0 # qs"
  then show "route_analysis rt codebase input_data system_doc user_intent =
              Inr \<lparr>provider = q0, lane = FAST, reason = ''Default FAST lane''\<rparr>"
    using assms by (simp add: route_analysis_def first_of_def)
qed

theorem exact_threshold_routes_default_witness:
  "sum_list (map (\<lambda>(path, content). int (length content)) threshold_codebase) = 100000 \<and>
   \<not> truthy (dict_get [(''query'', PStr ''test'')] ''has_vision'') \<and>
   route_analysis CortexRouter_init threshold_codebase [(''query'', PStr ''test'')] None None =
     Inr \<lparr>provider = OllamaProvider, lane = FAST, reason = ''Default FAST lane''\<rparr> \<and>
   route_analysis CortexRouter_init threshold_codebase [(''has_vision'', PBool True)] None (Some ''--cheap'') =
     Inr \<lparr>provider = ClaudeProvider, lane = SMART, reason = ''Vision capabilities required''\<rparr>"
proof -
  have h: "sum_list (map (\<lambda>(path, content). int (length content)) threshold_codebase) = 100000"
    by (simp add: threshold_codebase_def)
  have v: "\<not> truthy (dict_get [(''query'', PStr ''test'')] ''has_vision'')"
    by (simp add: dict_get_def)
  have f: "fast_lane CortexRouter_init = OllamaProvider # [GroqProvider, GeminiProvider]"
    by (simp add: CortexRouter_init_def)
  have a: "route_analysis CortexRouter_init threshold_codebase [(''query'', PStr ''test'')] None None =
     Inr \<lparr>provider = OllamaProvider, lane = FAST, reason = ''Default FAST lane''\<rparr>"
    using exact_threshold_routes_default[OF h, of CortexRouter_init "[(''query'', PStr ''test'')]" None None
        OllamaProvider "[GroqProvider, GeminiProvider]"] v f by simp
  have b: "route_analysis CortexRouter_init threshold_codebase [(''has_vision'', PBool True)] None (Some ''--cheap'') =
     Inr \<lparr>provider = ClaudeProvider, lane = SMART, reason = ''Vision capabilities required''\<rparr>"
    using h by (simp add: route_analysis_def first_of_def dict_get_def CortexRouter_init_def)
  show ?thesis using h v a b by simp
qed

section \<open>The validator\<close>

text \<open>
  Claim C9. \<^verbatim>\<open>_validate_result\<close> yields a true value exactly when the dict has the keys
  \<^verbatim>\<open>success\<close> and \<^verbatim>\<open>result\<close> and the value under \<^verbatim>\<open>success\<close> is truthy. The value
  under \<^verbatim>\<open>result\<close> does not matter: two dicts that differ in it only get the same verdict,
  and a payload that is \<^verbatim>\<open>None\<close> or the empty string is accepted.
\<close>

theorem validate_result_iff:
  "(truthy (validate_result result) \<longleftrightarrow>
      has_key result ''success'' \<and> has_key result ''result'' \<and> truthy (dict_get result ''success'')) \<and>
   validate_result ((''result'', v) # result) = validate_result ((''result'', v') # result) \<and>
   truthy (validate_result [(''success'', PBool True), (''result'', PNone)]) \<and>
   truthy (validate_result [(''success'', PBool True), (''result'', PStr [])])"
  by (simp add: validate_result_def has_key_def dict_get_def)

theorem validate_result_iff_witness:
  "truthy (validate_result valid_result) \<and>
   \<not> truthy (validate_result [(''success'', PBool True)]) \<and>
   \<not> truthy (validate_result [(''success'', PBool False), (''result'', PStr ''test'')])"
  using validate_result_iff[of valid_result PNone PNone]
    validate_result_iff[of "[(''success'', PBool True)]" PNone PNone]
    validate_result_iff[of "[(''success'', PBool False), (''result'', PStr ''test'')]" PNone PNone]
  by (simp add: valid_result_def has_key_def dict_get_def)

section \<open>The fallback chain\<close>

lemmas router_run_simps = analyze_with_fallback_def route_analysis_def first_of_def CortexRouter_init_def
  provider_defs CircuitBreaker_init_def analyze_code_def call_def vendor_call_def world0_def
  on_failure_def on_success_def deque_append_def dict_get_def has_key_def validate_result_def
  valid_result_def set_lane_def Let_def

lemma fallback_loop_never_raises:
  "fst (fallback_loop ps codebase input_data system_doc w) \<noteq> Some (Inl e)"
proof (induction ps arbitrary: w)
  case Nil
  show ?case by simp
next
  case (Cons p ps)
  obtain r p1 w1 where a: "analyze_code p codebase input_data system_doc w = (r, p1, w1)"
    by (cases "analyze_code p codebase input_data system_doc w") auto
  obtain out ps' w' where f: "fallback_loop ps codebase input_data system_doc w1 = (out, ps', w')"
    by (cases "fallback_loop ps codebase input_data system_doc w1") auto
  have "out \<noteq> Some (Inl e)" using Cons.IH[of w1] f by simp
  then show ?case using a f by (cases r) auto
qed

text \<open>
  Claim C1 says that an error raised by a provider of the primary lane is recovered and the next
  provider is tried, so that only the final \<^verbatim>\<open>"All AI providers failed"\<close> reaches the caller.
  The run: the router as constructed, an empty codebase, no intent, so the fast lane is the
  primary lane; the request of \<^verbatim>\<open>ollama\<close> raises \<^verbatim>\<open>Exception("Failed")\<close> and every other
  provider would return a valid result. The primary loop has no handler: the error of
  \<^verbatim>\<open>ollama\<close> is what \<^verbatim>\<open>analyze_with_fallback\<close> raises, and neither \<^verbatim>\<open>groq\<close> nor any
  provider of the smart lane is tried. (The fallback loop does recover every error, see
  \<open>fallback_loop_never_raises\<close>.)
\<close>

theorem primary_lane_error_propagates:
  "fst (analyze_with_fallback CortexRouter_init [] [] None None (world0 ollama_down)) =
     Inl (Exception ''Failed'') \<and>
   invoked (snd (snd (analyze_with_fallback CortexRouter_init [] [] None None (world0 ollama_down)))) ''ollama'' = 1 \<and>
   invoked (snd (snd (analyze_with_fallback CortexRouter_init [] [] None None (world0 ollama_down)))) ''groq'' = 0 \<and>
   invoked (snd (snd (analyze_with_fallback CortexRouter_init [] [] None None (world0 ollama_down)))) ''claude'' = 0"
  by (simp add: router_run_simps ollama_down_def)

text \<open>
  Claim C2 says that the provider whose result passes validation is invoked exactly once and
  that this result is returned. The run: the router as constructed, every provider healthy.
  The primary loop validates the outcome of a first call of \<^verbatim>\<open>ollama\<close> and then returns the
  outcome of a second call of it: the request of \<^verbatim>\<open>ollama\<close> runs twice. When the second
  request raises after a valid first one, that error is what the caller gets.
\<close>

theorem primary_lane_calls_twice:
  "fst (analyze_with_fallback CortexRouter_init [] [] None None (world0 all_valid)) = Inr valid_result \<and>
   invoked (snd (snd (analyze_with_fallback CortexRouter_init [] [] None None (world0 all_valid)))) ''ollama'' = 2 \<and>
   fst (analyze_with_fallback CortexRouter_init [] [] None None (world0 valid_then_error)) =
     Inl (Exception ''Failed'')"
  by (simp add: router_run_simps all_valid_def valid_then_error_def)

end
